theory Spec2Isabelle
  imports Main
begin

section \<open>Python values and the Task entity\<close>

text \<open>
  The values that \<^verbatim>\<open>json.load\<close> returns and \<^verbatim>\<open>json.dump\<close> accepts: None, booleans,
  integers, strings, lists, and dictionaries with string keys (given by their items in
  insertion order; a Python dictionary has no two items with one key). Numbers with a
  fraction are left out of the model.
\<close>

datatype pyval =
    PNone
  | PBool bool
  | PInt int
  | PStr string
  | PList "pyval list"
  | PDict "(string \<times> pyval) list"

text \<open>
  \<^verbatim>\<open>class Task\<close>. The annotations of \<^verbatim>\<open>__init__\<close> (int, str, str, bool) are not enforced
  by Python, and \<^verbatim>\<open>load_tasks\<close> builds tasks from whatever values the stored document
  holds, so every field is a Python value.
\<close>

record Task =
  task_id :: pyval
  title :: pyval
  description :: pyval
  completed :: pyval

definition Task_init :: "pyval \<Rightarrow> pyval \<Rightarrow> pyval \<Rightarrow> pyval \<Rightarrow> Task" where
  "Task_init i t d c = \<lparr>task_id = i, title = t, description = d, completed = c\<rparr>"

definition mark_completed :: "Task \<Rightarrow> Task" where
  "mark_completed task = task\<lparr>completed := PBool True\<rparr>"

definition to_dict :: "Task \<Rightarrow> (string \<times> pyval) list" where
  "to_dict task =
     [(''task_id'', task_id task),
      (''title'', title task),
      (''description'', description task),
      (''completed'', completed task)]"

text \<open>
  \<^verbatim>\<open>Task(**task_data)\<close> for a dictionary: the call raises TypeError (here \<open>None\<close>) when a
  key is not a parameter of \<^verbatim>\<open>__init__\<close> or when one of the three parameters without a
  default is missing; \<^verbatim>\<open>completed\<close> defaults to False.
\<close>

definition Task_kwargs :: "(string \<times> pyval) list \<Rightarrow> Task option" where
  "Task_kwargs kw =
     (if list_all (\<lambda>k. k \<in> set [''task_id'', ''title'', ''description'', ''completed''])
           (map fst kw)
      then (case (map_of kw ''task_id'', map_of kw ''title'', map_of kw ''description'') of
              (Some i, Some t, Some d) \<Rightarrow>
                Some (Task_init i t d
                        (case map_of kw ''completed'' of None \<Rightarrow> PBool False | Some c \<Rightarrow> c))
            | _ \<Rightarrow> None)
      else None)"

text \<open>\<^verbatim>\<open>Task(**task_data)\<close> for any value: only a dictionary can follow \<^verbatim>\<open>**\<close>.\<close>

fun Task_unpack :: "pyval \<Rightarrow> Task option" where
  "Task_unpack (PDict kw) = Task_kwargs kw"
| "Task_unpack _ = None"

text \<open>
  What \<^verbatim>\<open>for task_data in data\<close> iterates over: the elements of a list, the keys of a
  dictionary, the characters of a string; the other values are not iterable (TypeError,
  here \<open>None\<close>).
\<close>

fun py_iter :: "pyval \<Rightarrow> pyval list option" where
  "py_iter (PList xs) = Some xs"
| "py_iter (PDict kvs) = Some (map (\<lambda>kv. PStr (fst kv)) kvs)"
| "py_iter (PStr s) = Some (map (\<lambda>c. PStr [c]) s)"
| "py_iter _ = None"

text \<open>The comprehension \<^verbatim>\<open>[Task(**task_data) for task_data in data]\<close>, left to right.\<close>

fun Task_comprehension :: "pyval list \<Rightarrow> Task list option" where
  "Task_comprehension [] = Some []"
| "Task_comprehension (x # xs) =
     (case Task_unpack x of
        None \<Rightarrow> None
      | Some t \<Rightarrow> (case Task_comprehension xs of None \<Rightarrow> None | Some ts \<Rightarrow> Some (t # ts)))"

text \<open>
  \<^verbatim>\<open>task.task_id == task_id\<close> with an integer on the right: an int equals it by value, a
  bool counts as 0 or 1, every other value of the model differs.
\<close>

fun py_eq_int :: "pyval \<Rightarrow> int \<Rightarrow> bool" where
  "py_eq_int (PInt n) i = (n = i)"
| "py_eq_int (PBool b) i = ((if b then 1 else 0) = i)"
| "py_eq_int _ i = False"

text \<open>
  What \<^verbatim>\<open>json.dump\<close> can write. The encoder turns an int into its decimal text, and the
  interpreter refuses that conversion (ValueError) for an int of more than 4300 digits,
  the default of \<^verbatim>\<open>sys.int_info.default_max_str_digits\<close>; the sign does not count. The
  other values of the model are encoded part by part. The interpreter's recursion limit,
  which an encoder meets on values nested some hundred levels deep, is left out of the
  model.
\<close>

definition default_max_str_digits :: nat where
  "default_max_str_digits = 4300"

definition int_repr_ok :: "int \<Rightarrow> bool" where
  "int_repr_ok n = (abs n < 10 ^ default_max_str_digits)"

fun json_encodable :: "pyval \<Rightarrow> bool" where
  "json_encodable (PInt n) = int_repr_ok n"
| "json_encodable (PList xs) = list_all json_encodable xs"
| "json_encodable (PDict kvs) = list_all (\<lambda>kv. json_encodable (snd kv)) kvs"
| "json_encodable _ = True"

text \<open>Whether \<^verbatim>\<open>json.dump\<close> can write \<^verbatim>\<open>task.to_dict()\<close>.\<close>

definition Task_encodable :: "Task \<Rightarrow> bool" where
  "Task_encodable task = json_encodable (PDict (to_dict task))"

section \<open>Errors\<close>

text \<open>
  The exceptions the program raises itself:
  \<^verbatim>\<open>Exception("Error saving tasks: ...")\<close>, \<^verbatim>\<open>Exception("Error loading tasks: ...")\<close>
  (the specification's StorageError) and \<^verbatim>\<open>ValueError("Task with ID n not found")\<close>
  (the specification's TaskNotFoundError).
\<close>

datatype error =
    Error_saving_tasks
  | Error_loading_tasks
  | Task_not_found int

section \<open>The repository interface and the JSON file repository\<close>

text \<open>
  \<^verbatim>\<open>class TaskRepository(ABC)\<close>: two operations over a backend whose state has type \<open>'s\<close>.
\<close>

record 's TaskRepository =
  save_tasks :: "Task list \<Rightarrow> 's \<Rightarrow> (error + unit) \<times> 's"
  load_tasks :: "'s \<Rightarrow> (error + Task list) \<times> 's"

text \<open>
  The file at \<^verbatim>\<open>file_path\<close> as the two methods of \<^verbatim>\<open>JsonTaskRepository\<close> see it:
  absent (\<^verbatim>\<open>open\<close> raises FileNotFoundError), present but \<^verbatim>\<open>open(..., 'r')\<close> raises
  another OSError, present with a text that \<^verbatim>\<open>json.load\<close> rejects (the empty file, a
  truncated document, foreign text), or present with a text that \<^verbatim>\<open>json.load\<close> parses to
  the given value. \<^verbatim>\<open>json.dump\<close> followed by \<^verbatim>\<open>json.load\<close> is taken to return the value
  dumped.
\<close>

datatype file_state =
    NoFile
  | Unreadable
  | NotJson
  | Json pyval

text \<open>
  What the storage device does during one \<^verbatim>\<open>save_tasks\<close>: nothing goes wrong;
  \<^verbatim>\<open>open(..., 'w')\<close> raises (the file is untouched); or \<^verbatim>\<open>open(..., 'w')\<close> succeeds, which
  creates or truncates the file, and a later write of \<^verbatim>\<open>json.dump\<close> raises, which leaves a
  proper prefix of the document.

  Without any fault of the device, \<^verbatim>\<open>json.dump\<close> still raises when it meets a value it
  cannot encode. By then \<^verbatim>\<open>open(..., 'w')\<close> has truncated the file and the encoder has
  written the text before that value, so the file is left with a proper prefix of a
  document, and \<^verbatim>\<open>save_tasks\<close> raises its own exception.
\<close>

datatype io_fault =
    NoFault
  | OpenFault
  | WriteFault

definition JsonTaskRepository_save_tasks ::
    "io_fault \<Rightarrow> Task list \<Rightarrow> file_state \<Rightarrow> (error + unit) \<times> file_state" where
  "JsonTaskRepository_save_tasks io ts file =
     (case io of
        OpenFault \<Rightarrow> (Inl Error_saving_tasks, file)
      | WriteFault \<Rightarrow> (Inl Error_saving_tasks, NotJson)
      | NoFault \<Rightarrow>
          (if list_all Task_encodable ts
           then (Inr (), Json (PList (map (\<lambda>task. PDict (to_dict task)) ts)))
           else (Inl Error_saving_tasks, NotJson)))"

definition JsonTaskRepository_load_tasks ::
    "file_state \<Rightarrow> (error + Task list) \<times> file_state" where
  "JsonTaskRepository_load_tasks file =
     (case file of
        NoFile \<Rightarrow> (Inr [], file)
      | Unreadable \<Rightarrow> (Inl Error_loading_tasks, file)
      | NotJson \<Rightarrow> (Inl Error_loading_tasks, file)
      | Json data \<Rightarrow>
          (case py_iter data of
             None \<Rightarrow> (Inl Error_loading_tasks, file)
           | Some xs \<Rightarrow>
               (case Task_comprehension xs of
                  None \<Rightarrow> (Inl Error_loading_tasks, file)
                | Some ts \<Rightarrow> (Inr ts, file))))"

definition JsonTaskRepository :: "io_fault \<Rightarrow> file_state TaskRepository" where
  "JsonTaskRepository io =
     \<lparr>save_tasks = JsonTaskRepository_save_tasks io,
      load_tasks = JsonTaskRepository_load_tasks\<rparr>"

section \<open>The task manager\<close>

text \<open>
  \<^verbatim>\<open>class TaskManager\<close>: the in-memory list. The repository is fixed at construction and
  is passed to each operation; the backend's state is threaded through.
\<close>

record TaskManager =
  tasks :: "Task list"

definition TaskManager_init :: "'s TaskRepository \<Rightarrow> 's \<Rightarrow> (error + TaskManager) \<times> 's" where
  "TaskManager_init repository s =
     (case load_tasks repository s of
        (Inl e, s') \<Rightarrow> (Inl e, s')
      | (Inr ts, s') \<Rightarrow> (Inr \<lparr>tasks = ts\<rparr>, s'))"

text \<open>
  \<^verbatim>\<open>add_task\<close> appends before it saves, so the appended task stays in memory when the
  save raises.
\<close>

definition add_task ::
    "'s TaskRepository \<Rightarrow> string \<Rightarrow> string \<Rightarrow> TaskManager \<times> 's
       \<Rightarrow> (error + unit) \<times> TaskManager \<times> 's" where
  "add_task repository ttl descr st =
     (case st of (m, s) \<Rightarrow>
        (let new_id = int (length (tasks m)) + 1;
             task = Task_init (PInt new_id) (PStr ttl) (PStr descr) (PBool False);
             m' = m\<lparr>tasks := tasks m @ [task]\<rparr>
         in case save_tasks repository (tasks m') s of (r, s') \<Rightarrow> (r, m', s')))"

text \<open>
  The scan of \<^verbatim>\<open>complete_task\<close>: the list with the first matching task marked, or \<open>None\<close>
  when the loop ends without a match.
\<close>

fun complete_scan :: "Task list \<Rightarrow> int \<Rightarrow> Task list option" where
  "complete_scan [] i = None"
| "complete_scan (task # rest) i =
     (if py_eq_int (task_id task) i then Some (mark_completed task # rest)
      else (case complete_scan rest i of None \<Rightarrow> None | Some rest' \<Rightarrow> Some (task # rest')))"

definition complete_task ::
    "'s TaskRepository \<Rightarrow> int \<Rightarrow> TaskManager \<times> 's \<Rightarrow> (error + unit) \<times> TaskManager \<times> 's" where
  "complete_task repository i st =
     (case st of (m, s) \<Rightarrow>
        (case complete_scan (tasks m) i of
           None \<Rightarrow> (Inl (Task_not_found i), m, s)
         | Some ts' \<Rightarrow>
             (case save_tasks repository ts' s of (r, s') \<Rightarrow> (r, m\<lparr>tasks := ts'\<rparr>, s'))))"

definition list_tasks :: "TaskManager \<Rightarrow> Task list" where
  "list_tasks m = tasks m"

text \<open>
  A caller making \<^verbatim>\<open>add_task\<close> calls one after the other; an exception ends the sequence.
\<close>

fun add_task_calls ::
    "'s TaskRepository \<Rightarrow> (string \<times> string) list \<Rightarrow> TaskManager \<times> 's
       \<Rightarrow> (error + unit) \<times> TaskManager \<times> 's" where
  "add_task_calls repository [] st = (Inr (), st)"
| "add_task_calls repository (a # as) st =
     (case add_task repository (fst a) (snd a) st of
        (Inl e, st') \<Rightarrow> (Inl e, st')
      | (Inr u, st') \<Rightarrow> add_task_calls repository as st')"

section \<open>Basic facts\<close>

lemma Task_kwargs_to_dict: "Task_kwargs (to_dict t) = Some t"
  by (simp add: Task_kwargs_def to_dict_def Task_init_def)

lemma Task_comprehension_to_dict:
  "Task_comprehension (map (\<lambda>task. PDict (to_dict task)) ts) = Some ts"
  by (induction ts) (simp_all add: Task_kwargs_to_dict)

lemma complete_scan_None_iff:
  "complete_scan ts i = None \<longleftrightarrow> (\<forall>t\<in>set ts. \<not> py_eq_int (task_id t) i)"
  by (induction ts) (auto split: option.splits)

lemma complete_scan_append:
  "\<forall>u\<in>set pre. \<not> py_eq_int (task_id u) i \<Longrightarrow> py_eq_int (task_id t) i \<Longrightarrow>
     complete_scan (pre @ t # post) i = Some (pre @ mark_completed t # post)"
  by (induction pre) simp_all

lemma complete_scan_SomeD:
  "complete_scan ts i = Some ts' \<Longrightarrow>
     \<exists>pre t post. ts = pre @ t # post \<and> (\<forall>u\<in>set pre. \<not> py_eq_int (task_id u) i) \<and>
        py_eq_int (task_id t) i \<and> ts' = pre @ mark_completed t # post"
proof (induction ts arbitrary: ts')
  case Nil
  then show ?case by simp
next
  case (Cons a ts)
  show ?case
  proof (cases "py_eq_int (task_id a) i")
    case True
    with Cons.prems have "ts' = mark_completed a # ts" by simp
    with True show ?thesis by (intro exI[of _ "[]"] exI[of _ a] exI[of _ ts]) simp
  next
    case False
    with Cons.prems obtain r where r: "complete_scan ts i = Some r" and ts': "ts' = a # r"
      by (auto split: option.splits)
    from Cons.IH[OF r] obtain pre t post where
      "ts = pre @ t # post" "\<forall>u\<in>set pre. \<not> py_eq_int (task_id u) i"
      "py_eq_int (task_id t) i" "r = pre @ mark_completed t # post" by blast
    with False ts' show ?thesis
      by (intro exI[of _ "a # pre"] exI[of _ t] exI[of _ post]) simp
  qed
qed

lemma complete_scan_ids:
  "complete_scan ts i = Some ts' \<Longrightarrow> map task_id ts' = map task_id ts"
  by (induction ts arbitrary: ts') (auto simp: mark_completed_def split: option.splits if_splits)

lemma complete_scan_idem:
  "complete_scan ts i = Some ts' \<Longrightarrow> complete_scan ts' i = Some ts'"
  by (induction ts arbitrary: ts') (auto simp: mark_completed_def split: option.splits if_splits)

lemma complete_scan_length:
  "complete_scan ts i = Some ts' \<Longrightarrow> length ts' = length ts"
  by (induction ts arbitrary: ts') (auto split: option.splits if_splits)

lemma ten_le_limit: "(10::int) \<le> 10 ^ default_max_str_digits"
  using self_le_power[of "10::int" default_max_str_digits]
  by (simp add: default_max_str_digits_def del: power_numeral)

lemma int_repr_ok_small: "abs n < 10 \<Longrightarrow> int_repr_ok n"
  using ten_le_limit unfolding int_repr_ok_def by linarith


lemma Task_encodable_Task_init:
  "Task_encodable (Task_init (PInt n) (PStr t) (PStr d) (PBool c)) = int_repr_ok n"
  by (simp add: Task_encodable_def to_dict_def Task_init_def)

lemma Task_encodable_mark_completed:
  "Task_encodable t \<Longrightarrow> Task_encodable (mark_completed t)"
  by (simp add: Task_encodable_def to_dict_def mark_completed_def)

lemma complete_scan_encodable:
  "complete_scan ts i = Some ts' \<Longrightarrow> list_all Task_encodable ts \<Longrightarrow> list_all Task_encodable ts'"
  by (induction ts arbitrary: ts')
    (auto simp: Task_encodable_mark_completed split: option.splits if_splits)

lemma Json_NoFault_save:
  "list_all Task_encodable ts \<Longrightarrow>
     save_tasks (JsonTaskRepository NoFault) ts f =
       (Inr (), Json (PList (map (\<lambda>task. PDict (to_dict task)) ts)))"
  by (simp add: JsonTaskRepository_def JsonTaskRepository_save_tasks_def)


lemma add_task_result:
  "\<exists>r s'. add_task R ttl d (m, s) =
     (r, m\<lparr>tasks := tasks m @
        [Task_init (PInt (int (length (tasks m)) + 1)) (PStr ttl) (PStr d) (PBool False)]\<rparr>, s')"
  by (simp add: add_task_def Let_def split: prod.splits)

lemma add_task_Json_NoFault:
  assumes "list_all Task_encodable (tasks m)" and "int_repr_ok (int (length (tasks m)) + 1)"
  shows "add_task (JsonTaskRepository NoFault) t d (m, f) =
     (Inr (),
      m\<lparr>tasks := tasks m @ [Task_init (PInt (int (length (tasks m)) + 1)) (PStr t) (PStr d) (PBool False)]\<rparr>,
      Json (PList (map (\<lambda>task. PDict (to_dict task))
        (tasks m @ [Task_init (PInt (int (length (tasks m)) + 1)) (PStr t) (PStr d) (PBool False)]))))"
  using assms
  by (simp add: add_task_def JsonTaskRepository_def JsonTaskRepository_save_tasks_def Let_def
      Task_encodable_Task_init)

lemma add_task_calls_success_tasks:
  "add_task_calls R args (m, s) = (Inr (), m', s') \<Longrightarrow>
     \<exists>new. tasks m' = tasks m @ new \<and>
      map task_id new =
        map PInt [int (length (tasks m)) + 1 .. int (length (tasks m)) + int (length args)] \<and>
      map title new = map (\<lambda>a. PStr (fst a)) args \<and>
      map description new = map (\<lambda>a. PStr (snd a)) args \<and>
      map completed new = map (\<lambda>a. PBool False) args"
proof (induction args arbitrary: m s)
  case Nil
  then show ?case by simp
next
  case (Cons a args)
  let ?t = "Task_init (PInt (int (length (tasks m)) + 1)) (PStr (fst a)) (PStr (snd a)) (PBool False)"
  let ?m1 = "m\<lparr>tasks := tasks m @ [?t]\<rparr>"
  from add_task_result[of R "fst a" "snd a" m s] obtain r s1 where
    st: "add_task R (fst a) (snd a) (m, s) = (r, ?m1, s1)" by blast
  from Cons.prems st have run: "add_task_calls R args (?m1, s1) = (Inr (), m', s')"
    by (cases r) simp_all
  from Cons.IH[OF run] obtain new where
    ts: "tasks m' = tasks ?m1 @ new"
    and ids: "map task_id new =
        map PInt [int (length (tasks ?m1)) + 1 .. int (length (tasks ?m1)) + int (length args)]"
    and rest: "map title new = map (\<lambda>a. PStr (fst a)) args"
      "map description new = map (\<lambda>a. PStr (snd a)) args"
      "map completed new = map (\<lambda>a. PBool False) args"
    by blast
  have up: "[int (length (tasks m)) + 1 .. int (length (tasks m)) + int (length (a # args))] =
      (int (length (tasks m)) + 1) # [int (length (tasks m)) + 2 .. int (length (tasks m)) + 1 + int (length args)]"
    by (subst upto_rec1) (simp_all add: add.commute add.left_commute)
  have "tasks m' = tasks m @ (?t # new)" using ts by simp
  moreover have "map task_id (?t # new) =
      map PInt [int (length (tasks m)) + 1 .. int (length (tasks m)) + int (length (a # args))]"
  proof -
    have "map task_id (?t # new) = PInt (int (length (tasks m)) + 1) # map task_id new"
      by (simp add: Task_init_def)
    also have "\<dots> = map PInt ((int (length (tasks m)) + 1) #
        [int (length (tasks m)) + 2 .. int (length (tasks m)) + 1 + int (length args)])"
      using ids by (simp add: add_ac)
    also have "\<dots> = map PInt
        [int (length (tasks m)) + 1 .. int (length (tasks m)) + int (length (a # args))]"
      by (simp only: up)
    finally show ?thesis .
  qed
  moreover have "map title (?t # new) = map (\<lambda>a. PStr (fst a)) (a # args)"
    "map description (?t # new) = map (\<lambda>a. PStr (snd a)) (a # args)"
    "map completed (?t # new) = map (\<lambda>a. PBool False) (a # args)"
    using rest by (simp_all add: Task_init_def)
  ultimately show ?case by blast
qed

lemma add_task_calls_Json_NoFault:
  "list_all Task_encodable (tasks m) \<Longrightarrow>
   int (length (tasks m)) + int (length args) < 10 ^ default_max_str_digits \<Longrightarrow>
     \<exists>m' f'. add_task_calls (JsonTaskRepository NoFault) args (m, f) = (Inr (), m', f')"
proof (induction args arbitrary: m f)
  case Nil
  then show ?case by simp
next
  case (Cons a args)
  let ?t = "Task_init (PInt (int (length (tasks m)) + 1)) (PStr (fst a)) (PStr (snd a)) (PBool False)"
  let ?m1 = "m\<lparr>tasks := tasks m @ [?t]\<rparr>"
  let ?f1 = "Json (PList (map (\<lambda>task. PDict (to_dict task)) (tasks m @ [?t])))"
  have ok: "int_repr_ok (int (length (tasks m)) + 1)"
    using Cons.prems(2) unfolding int_repr_ok_def by simp
  have st: "add_task (JsonTaskRepository NoFault) (fst a) (snd a) (m, f) = (Inr (), ?m1, ?f1)"
    by (rule add_task_Json_NoFault[OF Cons.prems(1) ok])
  have enc: "list_all Task_encodable (tasks ?m1)"
    using Cons.prems(1) ok by (simp add: Task_encodable_Task_init)
  have bound: "int (length (tasks ?m1)) + int (length args) < 10 ^ default_max_str_digits"
    using Cons.prems(2) by simp
  from Cons.IH[OF enc bound, of ?f1] obtain m' f' where
    "add_task_calls (JsonTaskRepository NoFault) args (?m1, ?f1) = (Inr (), m', f')" by blast
  with st have "add_task_calls (JsonTaskRepository NoFault) (a # args) (m, f) = (Inr (), m', f')"
    by simp
  then show ?case by blast
qed

lemma complete_task_Some:
  "complete_scan (tasks m) i = Some ts' \<Longrightarrow>
     complete_task R i (m, s) = (fst (save_tasks R ts' s), m\<lparr>tasks := ts'\<rparr>, snd (save_tasks R ts' s))"
  by (simp add: complete_task_def split: prod.splits)

lemma complete_task_None:
  "complete_scan (tasks m) i = None \<Longrightarrow> complete_task R i (m, s) = (Inl (Task_not_found i), m, s)"
  by (simp add: complete_task_def)

lemma Json_load_saved:
  "load_tasks (JsonTaskRepository io) (Json (PList (map (\<lambda>task. PDict (to_dict task)) ts))) =
     (Inr ts, Json (PList (map (\<lambda>task. PDict (to_dict task)) ts)))"
  by (simp add: JsonTaskRepository_def JsonTaskRepository_load_tasks_def Task_comprehension_to_dict)

lemma Json_save_success_loads:
  "fst (save_tasks (JsonTaskRepository io) ts f) = Inr () \<Longrightarrow>
     load_tasks (JsonTaskRepository io) (snd (save_tasks (JsonTaskRepository io) ts f)) =
       (Inr ts, snd (save_tasks (JsonTaskRepository io) ts f))"
  by (cases io)
    (auto simp: JsonTaskRepository_def JsonTaskRepository_save_tasks_def
      JsonTaskRepository_load_tasks_def Task_comprehension_to_dict split: if_splits)

lemma Task_comprehension_None_iff:
  "Task_comprehension xs = None \<longleftrightarrow> (\<exists>x\<in>set xs. Task_unpack x = None)"
  by (induction xs) (auto split: option.splits)

lemma Task_kwargs_None_iff:
  "Task_kwargs kw = None \<longleftrightarrow>
     \<not> (set (map fst kw) \<subseteq> {''task_id'', ''title'', ''description'', ''completed''} \<and>
        {''task_id'', ''title'', ''description''} \<subseteq> set (map fst kw))"
proof -
  have k: "\<And>k. map_of kw k = None \<longleftrightarrow> k \<notin> set (map fst kw)"
    by (simp add: map_of_eq_None_iff)
  have a: "list_all (\<lambda>k. k \<in> set [''task_id'', ''title'', ''description'', ''completed''])
             (map fst kw) \<longleftrightarrow>
           set (map fst kw) \<subseteq> {''task_id'', ''title'', ''description'', ''completed''}"
  proof -
    have "\<And>(S::string list) xs. list_all (\<lambda>k. k \<in> set S) xs \<longleftrightarrow> set xs \<subseteq> set S"
      unfolding list_all_iff by blast
    from this[of "[''task_id'', ''title'', ''description'', ''completed'']" "map fst kw"]
    show ?thesis by (simp only: set_simps)
  qed
  show ?thesis
    unfolding Task_kwargs_def a
    using k[of "''task_id''"] k[of "''title''"] k[of "''description''"]
    by (cases "map_of kw ''task_id''"; cases "map_of kw ''title''";
        cases "map_of kw ''description''") simp_all
qed

lemma key_set_cases:
  "(K \<subseteq> {''task_id'', ''title'', ''description'', ''completed''} \<and>
    {''task_id'', ''title'', ''description''} \<subseteq> K) \<longleftrightarrow>
   (K = {''task_id'', ''title'', ''description'', ''completed''} \<or>
    K = {''task_id'', ''title'', ''description''})"
proof -
  have gen: "\<And>a b c d::string. (K \<subseteq> {a, b, c, d} \<and> {a, b, c} \<subseteq> K) \<longleftrightarrow> (K = {a, b, c, d} \<or> K = {a, b, c})"
    by blast
  show ?thesis by (rule gen)
qed

lemma Json_load_list:
  "JsonTaskRepository_load_tasks (Json (PList xs)) =
     (case Task_comprehension xs of
        None \<Rightarrow> (Inl Error_loading_tasks, Json (PList xs))
      | Some ts \<Rightarrow> (Inr ts, Json (PList xs)))"
  by (simp add: JsonTaskRepository_load_tasks_def)

lemma add_task_tasks:
  "tasks (fst (snd (add_task R ttl d (m, s)))) =
     tasks m @ [Task_init (PInt (int (length (tasks m)) + 1)) (PStr ttl) (PStr d) (PBool False)]"
  by (simp add: add_task_def Let_def split: prod.splits)

lemma complete_task_ids:
  "map task_id (tasks (fst (snd (complete_task R i (m, s))))) = map task_id (tasks m)"
proof (cases "complete_scan (tasks m) i")
  case None
  then show ?thesis by (simp add: complete_task_None)
next
  case (Some ts')
  then show ?thesis by (simp add: complete_task_Some complete_scan_ids)
qed

lemma TaskManager_init_loaded:
  "TaskManager_init R s = (Inr m0, s') \<Longrightarrow> load_tasks R s = (Inr (tasks m0), s')"
  by (auto simp: TaskManager_init_def split: prod.splits sum.splits)

lemma distinct_PInt_upto: "distinct (map PInt [i..j])"
  by (simp add: distinct_map inj_on_def)

text \<open>
  The collections a manager comes to hold can be encoded: the tasks that \<^verbatim>\<open>load_tasks\<close>
  builds from a document without an over-long integer (\<^verbatim>\<open>json.load\<close> refuses the integers
  that \<^verbatim>\<open>json.dump\<close> refuses, so it returns no other document), the collection after
  \<^verbatim>\<open>add_task\<close> when the new id is within the limit, and the collection after
  \<^verbatim>\<open>complete_task\<close> (lemma \<open>complete_scan_encodable\<close>).
\<close>

lemma Task_kwargs_encodable:
  assumes "Task_kwargs kw = Some t" and "list_all (\<lambda>kv. json_encodable (snd kv)) kw"
  shows "Task_encodable t"
proof -
  have v: "\<And>k x. map_of kw k = Some x \<Longrightarrow> json_encodable x"
  proof -
    fix k x assume "map_of kw k = Some x"
    then have "(k, x) \<in> set kw" by (rule map_of_SomeD)
    with assms(2) show "json_encodable x" by (auto simp: list_all_iff)
  qed
  from assms(1) obtain i ti d where
    m: "map_of kw ''task_id'' = Some i" "map_of kw ''title'' = Some ti"
      "map_of kw ''description'' = Some d"
    and t: "t = Task_init i ti d (case map_of kw ''completed'' of None \<Rightarrow> PBool False | Some c \<Rightarrow> c)"
    by (auto simp: Task_kwargs_def split: if_splits option.splits)
  have "json_encodable (case map_of kw ''completed'' of None \<Rightarrow> PBool False | Some c \<Rightarrow> c)"
    by (cases "map_of kw ''completed''") (simp_all add: v)
  with m show ?thesis
    unfolding t by (simp add: Task_encodable_def to_dict_def Task_init_def v)
qed

lemma Task_comprehension_encodable:
  "Task_comprehension xs = Some ts \<Longrightarrow> list_all json_encodable xs \<Longrightarrow> list_all Task_encodable ts"
proof (induction xs arbitrary: ts)
  case Nil
  then show ?case by simp
next
  case (Cons x xs)
  from Cons.prems(1) obtain t ts0 where
    u: "Task_unpack x = Some t" and c: "Task_comprehension xs = Some ts0" and ts: "ts = t # ts0"
    by (auto split: option.splits)
  from u obtain kw where x: "x = PDict kw" and k: "Task_kwargs kw = Some t"
    by (cases x) simp_all
  from Cons.prems(2) x have "list_all (\<lambda>kv. json_encodable (snd kv)) kw" by simp
  with k have "Task_encodable t" by (rule Task_kwargs_encodable)
  moreover from Cons.IH[OF c] Cons.prems(2) have "list_all Task_encodable ts0" by simp
  ultimately show ?case using ts by simp
qed

lemma py_iter_encodable:
  "py_iter data = Some xs \<Longrightarrow> json_encodable data \<Longrightarrow> list_all json_encodable xs"
  by (cases data) (auto simp: list_all_iff)

lemma load_tasks_encodable:
  assumes "load_tasks (JsonTaskRepository io) file = (Inr ts, file')"
    and "\<And>data. file = Json data \<Longrightarrow> json_encodable data"
  shows "list_all Task_encodable ts"
proof (cases "file")
  case (Json data)
  with assms(1) obtain xs where it: "py_iter data = Some xs" and c: "Task_comprehension xs = Some ts"
    by (auto simp: JsonTaskRepository_def JsonTaskRepository_load_tasks_def split: option.splits)
  from assms(2)[OF Json] it have "list_all json_encodable xs" by (simp add: py_iter_encodable)
  with c show ?thesis by (rule Task_comprehension_encodable)
next
  case NoFile
  with assms(1) show ?thesis
    by (auto simp: JsonTaskRepository_def JsonTaskRepository_load_tasks_def)
next
  case Unreadable
  with assms(1) show ?thesis
    by (auto simp: JsonTaskRepository_def JsonTaskRepository_load_tasks_def)
next
  case NotJson
  with assms(1) show ?thesis
    by (auto simp: JsonTaskRepository_def JsonTaskRepository_load_tasks_def)
qed

lemma add_task_encodable:
  "list_all Task_encodable (tasks m) \<Longrightarrow> int_repr_ok (int (length (tasks m)) + 1) \<Longrightarrow>
     list_all Task_encodable (tasks (fst (snd (add_task R ttl d (m, s)))))"
  by (simp add: add_task_tasks Task_encodable_Task_init)

section \<open>Round trip through the JSON file repository\<close>




section \<open>Identity assignment\<close>

text \<open>
  Claim C3. A manager constructed over a backend with no prior state starts with the
  empty collection. Whenever \<open>N\<close> calls of \<^verbatim>\<open>add_task\<close> on an empty collection all return
  without an exception, that is, all their saves succeed, on any repository, the
  collection has the ids \<open>1..N\<close> in call order (with the titles and descriptions of the
  calls, none completed), and \<^verbatim>\<open>list_tasks()\<close> has length \<open>N\<close>. On the JSON file
  repository without device fault the saves of the \<open>N\<close> calls do all succeed, as long as
  \<open>N\<close> itself is a number that \<^verbatim>\<open>json.dump\<close> can write (at most 4300 digits).
\<close>

theorem add_task_calls_from_empty_backend:
  "TaskManager_init (JsonTaskRepository NoFault) NoFile = (Inr \<lparr>tasks = []\<rparr>, NoFile) \<and>
   (add_task_calls R args (\<lparr>tasks = []\<rparr>, s) = (Inr (), m1, s1) \<longrightarrow>
      map task_id (list_tasks m1) = map PInt [1 .. int (length args)] \<and>
      map title (list_tasks m1) = map (\<lambda>a. PStr (fst a)) args \<and>
      map description (list_tasks m1) = map (\<lambda>a. PStr (snd a)) args \<and>
      map completed (list_tasks m1) = map (\<lambda>a. PBool False) args \<and>
      length (list_tasks m1) = length args) \<and>
   (int (length args) < 10 ^ default_max_str_digits \<longrightarrow>
     (\<exists>m' f'. add_task_calls (JsonTaskRepository NoFault) args (\<lparr>tasks = []\<rparr>, NoFile) = (Inr (), m', f') \<and>
        map task_id (list_tasks m') = map PInt [1 .. int (length args)] \<and>
        map title (list_tasks m') = map (\<lambda>a. PStr (fst a)) args \<and>
        map description (list_tasks m') = map (\<lambda>a. PStr (snd a)) args \<and>
        map completed (list_tasks m') = map (\<lambda>a. PBool False) args \<and>
        length (list_tasks m') = length args))"
proof -
  have gen: "map task_id (list_tasks m') = map PInt [1 .. int (length args)] \<and>
      map title (list_tasks m') = map (\<lambda>a. PStr (fst a)) args \<and>
      map description (list_tasks m') = map (\<lambda>a. PStr (snd a)) args \<and>
      map completed (list_tasks m') = map (\<lambda>a. PBool False) args \<and>
      length (list_tasks m') = length args"
    if run: "add_task_calls Q args (\<lparr>tasks = []\<rparr>, q) = (Inr (), m', q')"
    for Q :: "'q TaskRepository" and q q' m'
  proof -
    from add_task_calls_success_tasks[OF run] obtain new where
      ts: "tasks m' = new"
      and ids: "map task_id new = map PInt [1 .. int (length args)]"
      and rest: "map title new = map (\<lambda>a. PStr (fst a)) args"
        "map description new = map (\<lambda>a. PStr (snd a)) args"
        "map completed new = map (\<lambda>a. PBool False) args"
      by auto
    have "length new = length args" using rest(1) by (metis length_map)
    with ts ids rest show ?thesis by (simp add: list_tasks_def)
  qed
  have init: "TaskManager_init (JsonTaskRepository NoFault) NoFile = (Inr \<lparr>tasks = []\<rparr>, NoFile)"
    by (simp add: TaskManager_init_def JsonTaskRepository_def JsonTaskRepository_load_tasks_def)
  have json: "\<exists>m' f'. add_task_calls (JsonTaskRepository NoFault) args (\<lparr>tasks = []\<rparr>, NoFile) = (Inr (), m', f') \<and>
        map task_id (list_tasks m') = map PInt [1 .. int (length args)] \<and>
        map title (list_tasks m') = map (\<lambda>a. PStr (fst a)) args \<and>
        map description (list_tasks m') = map (\<lambda>a. PStr (snd a)) args \<and>
        map completed (list_tasks m') = map (\<lambda>a. PBool False) args \<and>
        length (list_tasks m') = length args"
    if b: "int (length args) < 10 ^ default_max_str_digits"
  proof -
    from add_task_calls_Json_NoFault[of "\<lparr>tasks = []\<rparr>" args NoFile] b obtain m' f' where
      run: "add_task_calls (JsonTaskRepository NoFault) args (\<lparr>tasks = []\<rparr>, NoFile) = (Inr (), m', f')"
      by auto
    from gen[OF run] run show ?thesis by blast
  qed
  show ?thesis using init gen[of R s m1 s1] json by blast
qed

theorem add_task_calls_from_empty_backend_witness:
  "\<exists>f'. add_task_calls (JsonTaskRepository NoFault) [(''A'', ''descA''), (''B'', ''descB'')] (\<lparr>tasks = []\<rparr>, NoFile) =
     (Inr (), \<lparr>tasks = [Task_init (PInt 1) (PStr ''A'') (PStr ''descA'') (PBool False),
                         Task_init (PInt 2) (PStr ''B'') (PStr ''descB'') (PBool False)]\<rparr>, f')"
proof -
  have b: "int (length [(''A'', ''descA''), (''B'', ''descB'')]) < 10 ^ default_max_str_digits"
    using ten_le_limit by simp
  have run: "\<exists>f'. add_task_calls (JsonTaskRepository NoFault) [(''A'', ''descA''), (''B'', ''descB'')]
      (\<lparr>tasks = []\<rparr>, NoFile) =
     (Inr (), \<lparr>tasks = [Task_init (PInt 1) (PStr ''A'') (PStr ''descA'') (PBool False),
                         Task_init (PInt 2) (PStr ''B'') (PStr ''descB'') (PBool False)]\<rparr>, f')"
    by (simp add: add_task_def JsonTaskRepository_def JsonTaskRepository_save_tasks_def Let_def
        Task_encodable_Task_init int_repr_ok_small)
  show ?thesis
    using add_task_calls_from_empty_backend[where args = "[(''A'', ''descA''), (''B'', ''descB'')]"] b run
    by blast
qed

text \<open>
  Claim C9. A manager constructed over a backend that holds exactly one task, with id 5
  and title X, loads that task; the next \<^verbatim>\<open>add_task("Y", "descY")\<close> gives the new task
  the id 2, the length of the collection plus one, and not 6, the largest id plus one.
\<close>

theorem add_after_preloaded_id_5:
  "TaskManager_init (JsonTaskRepository NoFault)
      (Json (PList [PDict [(''task_id'', PInt 5), (''title'', PStr ''X''),
                           (''description'', PStr d), (''completed'', PBool False)]])) =
     (Inr \<lparr>tasks = [Task_init (PInt 5) (PStr ''X'') (PStr d) (PBool False)]\<rparr>,
      Json (PList [PDict [(''task_id'', PInt 5), (''title'', PStr ''X''),
                          (''description'', PStr d), (''completed'', PBool False)]])) \<and>
   (\<exists>file'. add_task (JsonTaskRepository NoFault) ''Y'' ''descY''
       (\<lparr>tasks = [Task_init (PInt 5) (PStr ''X'') (PStr d) (PBool False)]\<rparr>, file) =
     (Inr (),
      \<lparr>tasks = [Task_init (PInt 5) (PStr ''X'') (PStr d) (PBool False),
                Task_init (PInt 2) (PStr ''Y'') (PStr ''descY'') (PBool False)]\<rparr>,
      file')) \<and>
   PInt 2 \<noteq> PInt (5 + 1)"
  by (simp add: TaskManager_init_def JsonTaskRepository_def JsonTaskRepository_load_tasks_def
      Task_kwargs_def add_task_def JsonTaskRepository_save_tasks_def Let_def
      Task_encodable_Task_init int_repr_ok_small)

section \<open>Completing a task\<close>

text \<open>
  Claim C5. When some task of the collection has the given id, \<^verbatim>\<open>complete_task(id)\<close>
  sets the completed flag of the first such task to True and changes nothing else: the
  tasks before it and after it, and its other fields, stay as they were. It then calls
  \<^verbatim>\<open>save_tasks\<close> of the repository, whichever it is, with the full updated collection and
  returns that call's outcome. On the JSON file repository, whenever the call returns
  without an exception the stored state loads back to the in-memory collection; and
  without device fault the call does return without an exception when \<^verbatim>\<open>json.dump\<close> can
  encode the tasks of the collection, as it can for every collection that was loaded
  from a file or built by \<^verbatim>\<open>add_task\<close>.
\<close>

theorem complete_task_present:
  assumes "\<exists>t\<in>set (tasks m). py_eq_int (task_id t) i"
  shows "\<exists>pre t post.
      tasks m = pre @ t # post \<and> (\<forall>u\<in>set pre. \<not> py_eq_int (task_id u) i) \<and>
      py_eq_int (task_id t) i \<and>
      complete_task R i (m, s) =
        (fst (save_tasks R (pre @ t\<lparr>completed := PBool True\<rparr> # post) s),
         m\<lparr>tasks := pre @ t\<lparr>completed := PBool True\<rparr> # post\<rparr>,
         snd (save_tasks R (pre @ t\<lparr>completed := PBool True\<rparr> # post) s)) \<and>
      (fst (complete_task (JsonTaskRepository io) i (m, f)) = Inr () \<longrightarrow>
         load_tasks (JsonTaskRepository io)
             (snd (snd (complete_task (JsonTaskRepository io) i (m, f)))) =
           (Inr (pre @ t\<lparr>completed := PBool True\<rparr> # post),
            snd (snd (complete_task (JsonTaskRepository io) i (m, f))))) \<and>
      (list_all Task_encodable (tasks m) \<longrightarrow>
        (\<exists>f'. complete_task (JsonTaskRepository NoFault) i (m, f) =
            (Inr (), m\<lparr>tasks := pre @ t\<lparr>completed := PBool True\<rparr> # post\<rparr>, f') \<and>
          load_tasks (JsonTaskRepository NoFault) f' =
            (Inr (pre @ t\<lparr>completed := PBool True\<rparr> # post), f')))"
proof -
  from assms have "complete_scan (tasks m) i \<noteq> None"
    by (simp add: complete_scan_None_iff)
  then obtain ts' where sc: "complete_scan (tasks m) i = Some ts'" by blast
  from complete_scan_SomeD[OF sc] obtain pre t post where
    dec: "tasks m = pre @ t # post" "\<forall>u\<in>set pre. \<not> py_eq_int (task_id u) i"
      "py_eq_int (task_id t) i" and ts': "ts' = pre @ t\<lparr>completed := PBool True\<rparr> # post"
    by (auto simp: mark_completed_def)
  have gen: "complete_task R i (m, s) = (fst (save_tasks R ts' s), m\<lparr>tasks := ts'\<rparr>, snd (save_tasks R ts' s))"
    by (rule complete_task_Some[OF sc])
  have ok: "fst (complete_task (JsonTaskRepository io) i (m, f)) = Inr () \<longrightarrow>
      load_tasks (JsonTaskRepository io)
          (snd (snd (complete_task (JsonTaskRepository io) i (m, f)))) =
        (Inr ts', snd (snd (complete_task (JsonTaskRepository io) i (m, f))))"
    by (simp add: complete_task_Some[OF sc] Json_save_success_loads)
  have js: "list_all Task_encodable (tasks m) \<longrightarrow>
      (\<exists>f'. complete_task (JsonTaskRepository NoFault) i (m, f) = (Inr (), m\<lparr>tasks := ts'\<rparr>, f') \<and>
        load_tasks (JsonTaskRepository NoFault) f' = (Inr ts', f'))"
  proof
    assume "list_all Task_encodable (tasks m)"
    then have enc: "list_all Task_encodable ts'" by (rule complete_scan_encodable[OF sc])
    have "complete_task (JsonTaskRepository NoFault) i (m, f) =
        (Inr (), m\<lparr>tasks := ts'\<rparr>, Json (PList (map (\<lambda>task. PDict (to_dict task)) ts')))"
      by (simp add: complete_task_Some[OF sc] Json_NoFault_save[OF enc])
    with Json_load_saved[of NoFault ts'] show "\<exists>f'. complete_task (JsonTaskRepository NoFault) i (m, f) =
        (Inr (), m\<lparr>tasks := ts'\<rparr>, f') \<and>
        load_tasks (JsonTaskRepository NoFault) f' = (Inr ts', f')"
      by blast
  qed
  show ?thesis
    using dec gen ok js unfolding ts' by blast
qed

theorem complete_task_present_witness:
  "(\<exists>t\<in>set [Task_init (PInt 1) (PStr ''A'') (PStr ''a'') (PBool False),
               Task_init (PInt 2) (PStr ''B'') (PStr ''b'') (PBool False)]. py_eq_int (task_id t) 2) \<and>
   list_all Task_encodable
     [Task_init (PInt 1) (PStr ''A'') (PStr ''a'') (PBool False),
      Task_init (PInt 2) (PStr ''B'') (PStr ''b'') (PBool False)] \<and>
   complete_task (JsonTaskRepository NoFault) 2
     (\<lparr>tasks = [Task_init (PInt 1) (PStr ''A'') (PStr ''a'') (PBool False),
                Task_init (PInt 2) (PStr ''B'') (PStr ''b'') (PBool False)]\<rparr>, NoFile) =
     (Inr (),
      \<lparr>tasks = [Task_init (PInt 1) (PStr ''A'') (PStr ''a'') (PBool False),
                Task_init (PInt 2) (PStr ''B'') (PStr ''b'') (PBool True)]\<rparr>,
      Json (PList [PDict (to_dict (Task_init (PInt 1) (PStr ''A'') (PStr ''a'') (PBool False))),
                   PDict (to_dict (Task_init (PInt 2) (PStr ''B'') (PStr ''b'') (PBool True)))])) \<and>
   fst (complete_task (JsonTaskRepository NoFault) 2
     (\<lparr>tasks = [Task_init (PInt 1) (PStr ''A'') (PStr ''a'') (PBool False),
                Task_init (PInt 2) (PStr ''B'') (PStr ''b'') (PBool False)]\<rparr>, NoFile)) = Inr ()"
proof -
  let ?m = "\<lparr>tasks = [Task_init (PInt 1) (PStr ''A'') (PStr ''a'') (PBool False),
                Task_init (PInt 2) (PStr ''B'') (PStr ''b'') (PBool False)]\<rparr>"
  have h: "\<exists>t\<in>set (tasks ?m). py_eq_int (task_id t) 2"
    by (simp add: Task_init_def)
  have e: "list_all Task_encodable (tasks ?m)"
    by (simp add: Task_encodable_Task_init int_repr_ok_small)
  have enc2: "list_all Task_encodable
      [Task_init (PInt 1) (PStr ''A'') (PStr ''a'') (PBool False),
       Task_init (PInt 2) (PStr ''B'') (PStr ''b'') (PBool True)]"
    by (simp add: Task_encodable_Task_init int_repr_ok_small)
  have sc: "complete_scan (tasks ?m) 2 =
      Some [Task_init (PInt 1) (PStr ''A'') (PStr ''a'') (PBool False),
            Task_init (PInt 2) (PStr ''B'') (PStr ''b'') (PBool True)]"
    by (simp add: Task_init_def mark_completed_def)
  have run: "complete_task (JsonTaskRepository NoFault) 2 (?m, NoFile) =
     (Inr (),
      \<lparr>tasks = [Task_init (PInt 1) (PStr ''A'') (PStr ''a'') (PBool False),
                Task_init (PInt 2) (PStr ''B'') (PStr ''b'') (PBool True)]\<rparr>,
      Json (PList [PDict (to_dict (Task_init (PInt 1) (PStr ''A'') (PStr ''a'') (PBool False))),
                   PDict (to_dict (Task_init (PInt 2) (PStr ''B'') (PStr ''b'') (PBool True)))]))"
    by (simp add: complete_task_Some[OF sc] Json_NoFault_save[OF enc2])
  from complete_task_present[OF h, of "JsonTaskRepository NoFault" NoFile NoFault NoFile] e
  have "\<exists>m' f'. complete_task (JsonTaskRepository NoFault) 2 (?m, NoFile) = (Inr (), m', f')"
    by blast
  then have ok: "fst (complete_task (JsonTaskRepository NoFault) 2 (?m, NoFile)) = Inr ()"
    by auto
  show ?thesis using h e run ok by simp
qed

text \<open>
  Claim C6. When no task of the collection has the given id, \<^verbatim>\<open>complete_task(id)\<close> fails
  with the not-found error and leaves the in-memory collection and the backend state as
  they were. This holds for every repository, also one whose \<^verbatim>\<open>save_tasks\<close> would change
  the backend state or fail: no call of the repository is made.
\<close>

theorem complete_task_absent:
  "\<forall>t\<in>set (tasks m). \<not> py_eq_int (task_id t) i \<Longrightarrow>
     complete_task R i (m, s) = (Inl (Task_not_found i), m, s)"
  by (simp add: complete_task_None complete_scan_None_iff)

theorem complete_task_absent_witness:
  "\<not> py_eq_int (task_id (Task_init (PInt 1) (PStr ''A'') (PStr ''a'') (PBool False))) 7 \<and>
   complete_task (JsonTaskRepository WriteFault) 7
     (\<lparr>tasks = [Task_init (PInt 1) (PStr ''A'') (PStr ''a'') (PBool False)]\<rparr>,
      Json (PList [PDict (to_dict (Task_init (PInt 1) (PStr ''A'') (PStr ''a'') (PBool False)))])) =
     (Inl (Task_not_found 7),
      \<lparr>tasks = [Task_init (PInt 1) (PStr ''A'') (PStr ''a'') (PBool False)]\<rparr>,
      Json (PList [PDict (to_dict (Task_init (PInt 1) (PStr ''A'') (PStr ''a'') (PBool False)))]))"
proof -
  have h: "\<forall>t\<in>set (tasks \<lparr>tasks = [Task_init (PInt 1) (PStr ''A'') (PStr ''a'') (PBool False)]\<rparr>).
      \<not> py_eq_int (task_id t) 7"
    by (simp add: Task_init_def)
  have n: "\<not> py_eq_int (task_id (Task_init (PInt 1) (PStr ''A'') (PStr ''a'') (PBool False))) 7"
    by (simp add: Task_init_def)
  show ?thesis
    using n complete_task_absent[OF h, of "JsonTaskRepository WriteFault"] by (intro conjI)
qed

text \<open>
  Claim C8. When some task of the collection has the given id, and \<^verbatim>\<open>json.dump\<close> can
  encode the tasks of the collection (as it can for every collection that was loaded
  from a file or built by \<^verbatim>\<open>add_task\<close>), two calls of \<^verbatim>\<open>complete_task(id)\<close> in succession
  on the JSON file repository (no device fault) both succeed; the second changes neither
  the collection nor the stored state, and the first task with that id has its completed
  flag equal to True.
\<close>

theorem complete_task_twice:
  assumes "\<exists>t\<in>set (tasks m). py_eq_int (task_id t) i"
    and "list_all Task_encodable (tasks m)"
  shows "\<exists>m1 f1 pre t post.
      complete_task (JsonTaskRepository NoFault) i (m, f) = (Inr (), m1, f1) \<and>
      complete_task (JsonTaskRepository NoFault) i (m1, f1) = (Inr (), m1, f1) \<and>
      tasks m = pre @ t # post \<and> (\<forall>u\<in>set pre. \<not> py_eq_int (task_id u) i) \<and>
      py_eq_int (task_id t) i \<and>
      tasks m1 = pre @ t\<lparr>completed := PBool True\<rparr> # post"
proof -
  from assms(1) have "complete_scan (tasks m) i \<noteq> None"
    by (simp add: complete_scan_None_iff)
  then obtain ts' where sc: "complete_scan (tasks m) i = Some ts'" by blast
  from complete_scan_SomeD[OF sc] obtain pre t post where
    dec: "tasks m = pre @ t # post" "\<forall>u\<in>set pre. \<not> py_eq_int (task_id u) i"
      "py_eq_int (task_id t) i" and ts': "ts' = pre @ t\<lparr>completed := PBool True\<rparr> # post"
    by (auto simp: mark_completed_def)
  have enc: "list_all Task_encodable ts'"
    by (rule complete_scan_encodable[OF sc assms(2)])
  let ?m1 = "m\<lparr>tasks := ts'\<rparr>"
  let ?f1 = "Json (PList (map (\<lambda>task. PDict (to_dict task)) ts'))"
  have first: "complete_task (JsonTaskRepository NoFault) i (m, f) = (Inr (), ?m1, ?f1)"
    by (simp add: complete_task_Some[OF sc] Json_NoFault_save[OF enc])
  have sc2: "complete_scan (tasks ?m1) i = Some ts'"
    using complete_scan_idem[OF sc] by simp
  have second: "complete_task (JsonTaskRepository NoFault) i (?m1, ?f1) = (Inr (), ?m1, ?f1)"
    by (simp add: complete_task_Some[OF sc2] Json_NoFault_save[OF enc])
  have "tasks ?m1 = pre @ t\<lparr>completed := PBool True\<rparr> # post" using ts' by simp
  with first second dec show ?thesis by blast
qed

theorem complete_task_twice_witness:
  "(\<exists>t\<in>set (tasks \<lparr>tasks = [Task_init (PInt 1) (PStr ''A'') (PStr ''a'') (PBool False)]\<rparr>).
      py_eq_int (task_id t) 1) \<and>
   list_all Task_encodable
     (tasks \<lparr>tasks = [Task_init (PInt 1) (PStr ''A'') (PStr ''a'') (PBool False)]\<rparr>) \<and>
   (\<exists>m1 f1. complete_task (JsonTaskRepository NoFault) 1
       (\<lparr>tasks = [Task_init (PInt 1) (PStr ''A'') (PStr ''a'') (PBool False)]\<rparr>, NoFile) = (Inr (), m1, f1) \<and>
     complete_task (JsonTaskRepository NoFault) 1 (m1, f1) = (Inr (), m1, f1) \<and>
     map completed (tasks m1) = [PBool True])"
proof -
  let ?m = "\<lparr>tasks = [Task_init (PInt 1) (PStr ''A'') (PStr ''a'') (PBool False)]\<rparr>"
  have h: "\<exists>t\<in>set (tasks ?m). py_eq_int (task_id t) 1"
    by (simp add: Task_init_def)
  have e: "list_all Task_encodable (tasks ?m)"
    by (simp add: Task_encodable_Task_init int_repr_ok_small)
  from complete_task_twice[OF h e, of NoFile] obtain m1 f1 pre t post where
    c1: "complete_task (JsonTaskRepository NoFault) 1 (?m, NoFile) = (Inr (), m1, f1)" and
    c2: "complete_task (JsonTaskRepository NoFault) 1 (m1, f1) = (Inr (), m1, f1)" and
    d: "tasks ?m = pre @ t # post" and
    t1: "tasks m1 = pre @ t\<lparr>completed := PBool True\<rparr> # post"
    by blast
  from d have "pre = [] \<and> post = []"
    by (cases pre) simp_all
  with t1 have c3: "map completed (tasks m1) = [PBool True]" by simp
  show ?thesis
  proof (intro conjI exI)
    show "\<exists>t\<in>set (tasks ?m). py_eq_int (task_id t) 1" by (rule h)
    show "list_all Task_encodable (tasks ?m)" by (rule e)
    show "complete_task (JsonTaskRepository NoFault) 1 (?m, NoFile) = (Inr (), m1, f1)"
      by (rule c1)
    show "complete_task (JsonTaskRepository NoFault) 1 (m1, f1) = (Inr (), m1, f1)"
      by (rule c2)
    show "map completed (tasks m1) = [PBool True]" by (rule c3)
  qed
qed

section \<open>Loading stored documents\<close>

text \<open>
  Claim C10. When the stored document is an array and some object in it has a key set
  that is neither the four keys task_id, title, description, completed nor those four
  without completed, \<^verbatim>\<open>load_tasks\<close> fails with the loading error: it neither skips the
  object nor fills in a value. An object with the three keys task_id, title, description
  is accepted, and its task gets completed = False from the default of the constructor.
  An object with exactly the four keys is accepted with the four stored values.
\<close>

theorem load_tasks_key_set:
  assumes "PDict kw \<in> set xs"
  shows "(set (map fst kw) \<noteq> {''task_id'', ''title'', ''description'', ''completed''} \<and>
          set (map fst kw) \<noteq> {''task_id'', ''title'', ''description''} \<longrightarrow>
            JsonTaskRepository_load_tasks (Json (PList xs)) =
              (Inl Error_loading_tasks, Json (PList xs))) \<and>
         (set (map fst kw) = {''task_id'', ''title'', ''description''} \<longrightarrow>
            (\<exists>i t d. map_of kw ''task_id'' = Some i \<and> map_of kw ''title'' = Some t \<and>
               map_of kw ''description'' = Some d \<and>
               Task_unpack (PDict kw) = Some (Task_init i t d (PBool False)))) \<and>
         (set (map fst kw) = {''task_id'', ''title'', ''description'', ''completed''} \<longrightarrow>
            (\<exists>i t d c. map_of kw ''task_id'' = Some i \<and> map_of kw ''title'' = Some t \<and>
               map_of kw ''description'' = Some d \<and> map_of kw ''completed'' = Some c \<and>
               Task_unpack (PDict kw) = Some (Task_init i t d c)))"
proof (intro conjI impI)
  assume "set (map fst kw) \<noteq> {''task_id'', ''title'', ''description'', ''completed''} \<and>
          set (map fst kw) \<noteq> {''task_id'', ''title'', ''description''}"
  then have "Task_kwargs kw = None"
    unfolding Task_kwargs_None_iff key_set_cases by blast
  then have "Task_unpack (PDict kw) = None" by simp
  with assms have "Task_comprehension xs = None"
    unfolding Task_comprehension_None_iff by blast
  then show "JsonTaskRepository_load_tasks (Json (PList xs)) =
      (Inl Error_loading_tasks, Json (PList xs))"
    by (simp add: Json_load_list)
next
  assume ks: "set (map fst kw) = {''task_id'', ''title'', ''description''}"
  have k: "\<And>k. map_of kw k = None \<longleftrightarrow> k \<notin> set (map fst kw)"
    by (simp add: map_of_eq_None_iff)
  have "map_of kw ''task_id'' \<noteq> None" "map_of kw ''title'' \<noteq> None"
    "map_of kw ''description'' \<noteq> None" and nc: "map_of kw ''completed'' = None"
    unfolding k ks by simp_all
  then obtain i t d where v: "map_of kw ''task_id'' = Some i" "map_of kw ''title'' = Some t"
    "map_of kw ''description'' = Some d" by blast
  have "Task_kwargs kw \<noteq> None"
    unfolding Task_kwargs_None_iff key_set_cases using ks by blast
  then have "Task_kwargs kw = Some (Task_init i t d (PBool False))"
    using v nc by (simp add: Task_kwargs_def split: if_splits)
  with v show "\<exists>i t d. map_of kw ''task_id'' = Some i \<and> map_of kw ''title'' = Some t \<and>
      map_of kw ''description'' = Some d \<and>
      Task_unpack (PDict kw) = Some (Task_init i t d (PBool False))"
    by simp
next
  assume ks: "set (map fst kw) = {''task_id'', ''title'', ''description'', ''completed''}"
  have k: "\<And>k. map_of kw k = None \<longleftrightarrow> k \<notin> set (map fst kw)"
    by (simp add: map_of_eq_None_iff)
  have "map_of kw ''task_id'' \<noteq> None" "map_of kw ''title'' \<noteq> None"
    "map_of kw ''description'' \<noteq> None" "map_of kw ''completed'' \<noteq> None"
    unfolding k ks by simp_all
  then obtain i t d c where v: "map_of kw ''task_id'' = Some i" "map_of kw ''title'' = Some t"
    "map_of kw ''description'' = Some d" "map_of kw ''completed'' = Some c" by blast
  have "Task_kwargs kw \<noteq> None"
    unfolding Task_kwargs_None_iff key_set_cases using ks by blast
  then have "Task_kwargs kw = Some (Task_init i t d c)"
    using v by (simp add: Task_kwargs_def split: if_splits)
  with v show "\<exists>i t d c. map_of kw ''task_id'' = Some i \<and> map_of kw ''title'' = Some t \<and>
      map_of kw ''description'' = Some d \<and> map_of kw ''completed'' = Some c \<and>
      Task_unpack (PDict kw) = Some (Task_init i t d c)"
    by simp
qed

theorem load_tasks_key_set_witness:
  "PDict [(''task_id'', PInt 1), (''title'', PStr ''A''), (''desc'', PStr ''a''), (''completed'', PBool False)]
     \<in> set [PDict [(''task_id'', PInt 1), (''title'', PStr ''A''), (''desc'', PStr ''a''), (''completed'', PBool False)]] \<and>
   set (map fst [(''task_id'', PInt 1), (''title'', PStr ''A''), (''desc'', PStr ''a''), (''completed'', PBool False)])
     \<noteq> {''task_id'', ''title'', ''description'', ''completed''} \<and>
   set (map fst [(''task_id'', PInt 1), (''title'', PStr ''A''), (''desc'', PStr ''a''), (''completed'', PBool False)])
     \<noteq> {''task_id'', ''title'', ''description''} \<and>
   JsonTaskRepository_load_tasks
     (Json (PList [PDict [(''task_id'', PInt 1), (''title'', PStr ''A''), (''desc'', PStr ''a''), (''completed'', PBool False)]])) =
     (Inl Error_loading_tasks,
      Json (PList [PDict [(''task_id'', PInt 1), (''title'', PStr ''A''), (''desc'', PStr ''a''), (''completed'', PBool False)]])) \<and>
   set (map fst [(''task_id'', PInt 1), (''title'', PStr ''A''), (''description'', PStr ''a'')])
     = {''task_id'', ''title'', ''description''} \<and>
   Task_unpack (PDict [(''task_id'', PInt 1), (''title'', PStr ''A''), (''description'', PStr ''a'')]) =
     Some (Task_init (PInt 1) (PStr ''A'') (PStr ''a'') (PBool False))"
proof -
  let ?bad = "[(''task_id'', PInt 1), (''title'', PStr ''A''), (''desc'', PStr ''a''), (''completed'', PBool False)]"
  let ?ok = "[(''task_id'', PInt 1), (''title'', PStr ''A''), (''description'', PStr ''a'')]"
  have m: "PDict ?bad \<in> set [PDict ?bad]" by simp
  have d: "''desc'' \<in> set (map fst ?bad)" by simp
  have n1: "set (map fst ?bad) \<noteq> {''task_id'', ''title'', ''description'', ''completed''}"
  proof
    assume "set (map fst ?bad) = {''task_id'', ''title'', ''description'', ''completed''}"
    with d have "''desc'' \<in> {''task_id'', ''title'', ''description'', ''completed''}"
      by (simp only:)
    then show False by simp
  qed
  have n2: "set (map fst ?bad) \<noteq> {''task_id'', ''title'', ''description''}"
  proof
    assume "set (map fst ?bad) = {''task_id'', ''title'', ''description''}"
    with d have "''desc'' \<in> {''task_id'', ''title'', ''description''}"
      by (simp only:)
    then show False by simp
  qed
  have e: "set (map fst ?ok) = {''task_id'', ''title'', ''description''}" by simp
  have m2: "PDict ?ok \<in> set [PDict ?ok]" by simp
  from load_tasks_key_set[OF m] n1 n2
  have r1: "JsonTaskRepository_load_tasks (Json (PList [PDict ?bad])) =
      (Inl Error_loading_tasks, Json (PList [PDict ?bad]))" by blast
  from load_tasks_key_set[OF m2] e
  have r2: "Task_unpack (PDict ?ok) = Some (Task_init (PInt 1) (PStr ''A'') (PStr ''a'') (PBool False))"
    by (simp add: Task_kwargs_def)
  show ?thesis using m n1 n2 r1 e r2 by (intro conjI)
qed

text \<open>
  Claim C7. When the file path does not exist, \<^verbatim>\<open>load_tasks\<close> returns the empty list and
  does not fail, and a manager constructed over it starts empty. Every other failure of
  the retrieval fails with the loading error: a file that cannot be opened, a text that
  is not JSON, a JSON value that cannot be iterated, an element from which no task can
  be built. No other error comes out of \<^verbatim>\<open>load_tasks\<close>, and none at all when the path does
  not exist.
\<close>

theorem load_tasks_no_prior_state:
  "JsonTaskRepository_load_tasks NoFile = (Inr [], NoFile) \<and>
   TaskManager_init (JsonTaskRepository io) NoFile = (Inr \<lparr>tasks = []\<rparr>, NoFile) \<and>
   JsonTaskRepository_load_tasks Unreadable = (Inl Error_loading_tasks, Unreadable) \<and>
   JsonTaskRepository_load_tasks NotJson = (Inl Error_loading_tasks, NotJson) \<and>
   (py_iter d = None \<longrightarrow>
      JsonTaskRepository_load_tasks (Json d) = (Inl Error_loading_tasks, Json d)) \<and>
   (py_iter d = Some xs \<and> Task_comprehension xs = None \<longrightarrow>
      JsonTaskRepository_load_tasks (Json d) = (Inl Error_loading_tasks, Json d)) \<and>
   (fst (JsonTaskRepository_load_tasks f) = Inl e \<longrightarrow>
      e = Error_loading_tasks \<and> f \<noteq> NoFile)"
proof (intro conjI impI)
  show "JsonTaskRepository_load_tasks NoFile = (Inr [], NoFile)"
    by (simp add: JsonTaskRepository_load_tasks_def)
  show "TaskManager_init (JsonTaskRepository io) NoFile = (Inr \<lparr>tasks = []\<rparr>, NoFile)"
    by (simp add: TaskManager_init_def JsonTaskRepository_def JsonTaskRepository_load_tasks_def)
  show "JsonTaskRepository_load_tasks Unreadable = (Inl Error_loading_tasks, Unreadable)"
    by (simp add: JsonTaskRepository_load_tasks_def)
  show "JsonTaskRepository_load_tasks NotJson = (Inl Error_loading_tasks, NotJson)"
    by (simp add: JsonTaskRepository_load_tasks_def)
next
  assume "py_iter d = None"
  then show "JsonTaskRepository_load_tasks (Json d) = (Inl Error_loading_tasks, Json d)"
    by (simp add: JsonTaskRepository_load_tasks_def)
next
  assume "py_iter d = Some xs \<and> Task_comprehension xs = None"
  then show "JsonTaskRepository_load_tasks (Json d) = (Inl Error_loading_tasks, Json d)"
    by (simp add: JsonTaskRepository_load_tasks_def)
next
  assume a: "fst (JsonTaskRepository_load_tasks f) = Inl e"
  then show "e = Error_loading_tasks"
    by (cases f) (auto simp: JsonTaskRepository_load_tasks_def split: option.splits)
  from a show "f \<noteq> NoFile"
    by (auto simp: JsonTaskRepository_load_tasks_def)
qed

theorem load_tasks_no_prior_state_witness:
  "py_iter (PInt 3) = None \<and>
   JsonTaskRepository_load_tasks (Json (PInt 3)) = (Inl Error_loading_tasks, Json (PInt 3)) \<and>
   py_iter (PList [PStr ''x'']) = Some [PStr ''x''] \<and>
   Task_comprehension [PStr ''x''] = None \<and>
   JsonTaskRepository_load_tasks (Json (PList [PStr ''x''])) =
     (Inl Error_loading_tasks, Json (PList [PStr ''x''])) \<and>
   fst (JsonTaskRepository_load_tasks NotJson) = Inl Error_loading_tasks \<and>
   NotJson \<noteq> NoFile \<and>
   JsonTaskRepository_load_tasks NoFile = (Inr [], NoFile)"
proof -
  have a: "py_iter (PInt 3) = None" by simp
  have b: "py_iter (PList [PStr ''x'']) = Some [PStr ''x''] \<and> Task_comprehension [PStr ''x''] = None"
    by simp
  have c: "fst (JsonTaskRepository_load_tasks NotJson) = Inl Error_loading_tasks"
    by (simp add: JsonTaskRepository_load_tasks_def)
  from load_tasks_no_prior_state[where d = "PInt 3" and f = NotJson and e = Error_loading_tasks] a
  have r1: "JsonTaskRepository_load_tasks (Json (PInt 3)) = (Inl Error_loading_tasks, Json (PInt 3))"
    by blast
  from load_tasks_no_prior_state[where d = "PList [PStr ''x'']" and xs = "[PStr ''x'']"] b
  have r2: "JsonTaskRepository_load_tasks (Json (PList [PStr ''x''])) =
     (Inl Error_loading_tasks, Json (PList [PStr ''x'']))"
    and r3: "JsonTaskRepository_load_tasks NoFile = (Inr [], NoFile)"
    by blast+
  show ?thesis using a b c r1 r2 r3 by simp
qed

section \<open>Saving is not atomic\<close>

text \<open>
  Claim C2 asks that \<^verbatim>\<open>save_tasks\<close> either stores the full sequence or leaves the stored
  state as it was. \<^verbatim>\<open>open(file_path, 'w')\<close> truncates the file before \<^verbatim>\<open>json.dump\<close>
  writes anything, so a write that fails half way leaves a file that holds neither the
  old collection nor the new one: with one task stored and two tasks to save, the call
  fails with the saving error, the file is no JSON document any more, and the next
  \<^verbatim>\<open>load_tasks\<close> fails too.
\<close>

theorem save_tasks_write_fault_not_atomic:
  "JsonTaskRepository_save_tasks WriteFault
     [Task_init (PInt 1) (PStr ''A'') (PStr ''a'') (PBool False),
      Task_init (PInt 2) (PStr ''B'') (PStr ''b'') (PBool False)]
     (Json (PList [PDict (to_dict (Task_init (PInt 1) (PStr ''A'') (PStr ''a'') (PBool False)))])) =
     (Inl Error_saving_tasks, NotJson) \<and>
   NotJson \<noteq> Json (PList [PDict (to_dict (Task_init (PInt 1) (PStr ''A'') (PStr ''a'') (PBool False)))]) \<and>
   NotJson \<noteq> Json (PList (map (\<lambda>task. PDict (to_dict task))
     [Task_init (PInt 1) (PStr ''A'') (PStr ''a'') (PBool False),
      Task_init (PInt 2) (PStr ''B'') (PStr ''b'') (PBool False)])) \<and>
   JsonTaskRepository_load_tasks NotJson = (Inl Error_loading_tasks, NotJson)"
  by (simp add: JsonTaskRepository_save_tasks_def JsonTaskRepository_load_tasks_def)

section \<open>Uniqueness of ids\<close>

text \<open>
  Claim C1 as stated fails. A backend holds one task with id 2; a manager constructed
  over it loads that task (its ids are unique); \<^verbatim>\<open>add_task\<close> succeeds and gives the new
  task the id 2 as well, the length of the collection plus one, so two tasks of the
  collection share an id.
\<close>

theorem add_task_duplicates_id:
  "TaskManager_init (JsonTaskRepository NoFault)
      (Json (PList [PDict [(''task_id'', PInt 2), (''title'', PStr ''X''),
                           (''description'', PStr ''x''), (''completed'', PBool False)]])) =
     (Inr \<lparr>tasks = [Task_init (PInt 2) (PStr ''X'') (PStr ''x'') (PBool False)]\<rparr>,
      Json (PList [PDict [(''task_id'', PInt 2), (''title'', PStr ''X''),
                          (''description'', PStr ''x''), (''completed'', PBool False)]])) \<and>
   distinct (map task_id [Task_init (PInt 2) (PStr ''X'') (PStr ''x'') (PBool False)]) \<and>
   fst (add_task (JsonTaskRepository NoFault) ''Y'' ''y''
       (\<lparr>tasks = [Task_init (PInt 2) (PStr ''X'') (PStr ''x'') (PBool False)]\<rparr>,
        Json (PList [PDict [(''task_id'', PInt 2), (''title'', PStr ''X''),
                            (''description'', PStr ''x''), (''completed'', PBool False)]]))) = Inr () \<and>
   \<not> distinct (map task_id (list_tasks (fst (snd
      (add_task (JsonTaskRepository NoFault) ''Y'' ''y''
        (\<lparr>tasks = [Task_init (PInt 2) (PStr ''X'') (PStr ''x'') (PBool False)]\<rparr>,
         Json (PList [PDict [(''task_id'', PInt 2), (''title'', PStr ''X''),
                             (''description'', PStr ''x''), (''completed'', PBool False)]])))))))"
  by (simp add: TaskManager_init_def JsonTaskRepository_def JsonTaskRepository_load_tasks_def
      Task_kwargs_def add_task_def JsonTaskRepository_save_tasks_def Let_def
      Task_encodable_Task_init int_repr_ok_small list_tasks_def)
    (simp add: Task_init_def)

text \<open>
  Claim C1, amended. \<^verbatim>\<open>complete_task\<close> never changes the ids of the collection, whatever
  its outcome. After \<^verbatim>\<open>add_task\<close> the ids are unique exactly when they were unique before
  and no task had the id length + 1. Construction takes the collection that
  \<^verbatim>\<open>load_tasks\<close> returns as it is. When the ids are \<open>1..n\<close> in order, as after construction
  over an empty backend, they are unique and \<^verbatim>\<open>add_task\<close> makes them \<open>1..n+1\<close>. All of
  this holds for every repository.
\<close>

theorem unique_ids_amended:
  "map task_id (tasks (fst (snd (complete_task R i (m, s))))) = map task_id (tasks m) \<and>
   (distinct (map task_id (tasks (fst (snd (add_task R ttl d (m, s)))))) \<longleftrightarrow>
      distinct (map task_id (tasks m)) \<and>
      PInt (int (length (tasks m)) + 1) \<notin> set (map task_id (tasks m))) \<and>
   (TaskManager_init R s = (Inr m0, s') \<longrightarrow> load_tasks R s = (Inr (tasks m0), s')) \<and>
   (map task_id (tasks m) = map PInt [1 .. int (length (tasks m))] \<longrightarrow>
      distinct (map task_id (tasks m)) \<and>
      map task_id (tasks (fst (snd (add_task R ttl d (m, s))))) =
        map PInt [1 .. int (length (tasks m)) + 1])"
proof (intro conjI impI)
  show "map task_id (tasks (fst (snd (complete_task R i (m, s))))) = map task_id (tasks m)"
    by (rule complete_task_ids)
  show "distinct (map task_id (tasks (fst (snd (add_task R ttl d (m, s)))))) \<longleftrightarrow>
      distinct (map task_id (tasks m)) \<and>
      PInt (int (length (tasks m)) + 1) \<notin> set (map task_id (tasks m))"
    by (simp add: add_task_tasks Task_init_def)
next
  assume "TaskManager_init R s = (Inr m0, s')"
  then show "load_tasks R s = (Inr (tasks m0), s')" by (rule TaskManager_init_loaded)
next
  assume ids: "map task_id (tasks m) = map PInt [1 .. int (length (tasks m))]"
  show "distinct (map task_id (tasks m))"
    by (subst ids) (rule distinct_PInt_upto)
  have "[1 .. int (length (tasks m)) + 1] = [1 .. int (length (tasks m))] @ [int (length (tasks m)) + 1]"
    by (subst upto_rec2) simp_all
  then show "map task_id (tasks (fst (snd (add_task R ttl d (m, s))))) =
      map PInt [1 .. int (length (tasks m)) + 1]"
    using ids by (simp add: add_task_tasks Task_init_def)
qed

theorem unique_ids_amended_witness:
  "map task_id (tasks \<lparr>tasks = [Task_init (PInt 1) (PStr ''A'') (PStr ''a'') (PBool False)]\<rparr>) =
     map PInt [1 .. int (length (tasks \<lparr>tasks = [Task_init (PInt 1) (PStr ''A'') (PStr ''a'') (PBool False)]\<rparr>))] \<and>
   distinct (map task_id (tasks (fst (snd (add_task (JsonTaskRepository NoFault) ''B'' ''b''
     (\<lparr>tasks = [Task_init (PInt 1) (PStr ''A'') (PStr ''a'') (PBool False)]\<rparr>, NoFile)))))) \<and>
   map task_id (tasks (fst (snd (add_task (JsonTaskRepository NoFault) ''B'' ''b''
     (\<lparr>tasks = [Task_init (PInt 1) (PStr ''A'') (PStr ''a'') (PBool False)]\<rparr>, NoFile))))) =
     [PInt 1, PInt 2] \<and>
   TaskManager_init (JsonTaskRepository NoFault) NoFile = (Inr \<lparr>tasks = []\<rparr>, NoFile) \<and>
   load_tasks (JsonTaskRepository NoFault) NoFile = (Inr (tasks \<lparr>tasks = []\<rparr>), NoFile)"
proof -
  let ?m = "\<lparr>tasks = [Task_init (PInt 1) (PStr ''A'') (PStr ''a'') (PBool False)]\<rparr>"
  let ?J = "JsonTaskRepository NoFault"
  have h1: "map task_id (tasks ?m) = map PInt [1 .. int (length (tasks ?m))]"
    by (simp add: Task_init_def)
  have h2: "TaskManager_init ?J NoFile = (Inr \<lparr>tasks = []\<rparr>, NoFile)"
    by (simp add: TaskManager_init_def JsonTaskRepository_def JsonTaskRepository_load_tasks_def)
  note t = unique_ids_amended[where R = ?J and m = ?m and s = NoFile and ttl = "''B''"
      and d = "''b''" and ?m0.0 = "\<lparr>tasks = []\<rparr>" and s' = NoFile and i = 1]
  have u: "[1 .. (2::int)] = [1, 2]" by (simp add: upto_rec1)
  from t h1 have c: "map task_id (tasks (fst (snd (add_task ?J ''B'' ''b'' (?m, NoFile))))) =
      map PInt [1 .. int (length (tasks ?m)) + 1]"
    by blast
  then have r2: "map task_id (tasks (fst (snd (add_task ?J ''B'' ''b'' (?m, NoFile))))) =
      [PInt 1, PInt 2]"
    by (simp add: u)
  have r1: "distinct (map task_id (tasks (fst (snd (add_task ?J ''B'' ''b'' (?m, NoFile))))))"
    by (subst r2) simp
  from t h2 have r3: "load_tasks ?J NoFile = (Inr (tasks \<lparr>tasks = []\<rparr>), NoFile)"
    by blast
  show ?thesis using h1 r1 r2 h2 r3 by (intro conjI)
qed

end
